theory Spec2Isabelle
  imports Main
begin

section \<open>Python values the module works on\<close>

text \<open>
  The exceptions the module can raise. The two \<open>ValueError\<close>s of
  \<open>sequence_to_vector\<close> carry different messages and are kept apart; the first
  one formats the index of the offending element into its message.
\<close>

datatype error =
    AssertionError
  | KeyError
  | TypeError
  | LookupError
  | UnboundLocalError
  | ValueError_not_vector
  | ValueError_elt nat
  | ValueError_empty
  | ConversionError
  | OtherException string

text \<open>
  A Python class is a name with its tuple of base classes; \<open>issubclass\<close> is the
  reflexive, transitive walk through the bases.
\<close>

datatype pyclass = PyClass string "pyclass list"

fun issubclass :: "pyclass \<Rightarrow> pyclass \<Rightarrow> bool" where
  "issubclass (PyClass n bases) d =
     (PyClass n bases = d \<or> list_ex (\<lambda>b. issubclass b d) bases)"

text \<open>
  The Python types the module registers handlers for or looks up in \<open>TYPEORDER\<close>
  (\<open>T_NULLType\<close> is \<open>type(NULL)\<close>); any other type is \<open>T_other\<close> with its name.
\<close>

datatype pytype =
    T_object
  | T_RObject
  | T_Sexp
  | T_SexpVector
  | T_SexpClosure
  | T_SexpEnvironment
  | T_SexpS4
  | T_SexpExtPtr
  | T_NULLType
  | T_bool
  | T_int
  | T_float
  | T_complex
  | T_str
  | T_other string

text \<open>
  A host value in a sequence handed to \<open>sequence_to_vector\<close>: the function looks at
  \<open>type(elt)\<close> only, so a value is its exact runtime type and an opaque payload (its
  \<open>repr\<close>).
\<close>

datatype pyval = PyVal (type_of: pytype) (payload: string)

text \<open>\<open>rinterface.RTYPES\<close>, the storage tag that \<open>obj.typeof\<close> returns.\<close>

datatype RTYPES =
    NILSXP | SYMSXP | LISTSXP | CLOSXP | ENVSXP | PROMSXP | LANGSXP | SPECIALSXP
  | BUILTINSXP | CHARSXP | LGLSXP | INTSXP | REALSXP | CPLXSXP | STRSXP | DOTSXP
  | ANYSXP | VECSXP | EXPRSXP | BCODESXP | EXTPTRSXP | WEAKREFSXP | RAWSXP | S4SXP

text \<open>
  A value of the embedded R as the module sees it: the method resolution order of its
  Python class (the class itself first, \<open>object\<close> last), which decides
  \<open>isinstance\<close> and the dispatch; its storage tag \<open>typeof\<close>; its R class chain
  \<open>rclass\<close>; and its attributes, read with \<open>do_slot\<close>. The only attribute the
  module reads is \<open>dim\<close>, an integer vector.
\<close>

record sexp =
  sexp_mro :: "pytype list"
  typeof :: RTYPES
  rclass :: "string list"
  slots :: "string \<rightharpoonup> int list"

definition isinstance :: "sexp \<Rightarrow> pytype \<Rightarrow> bool" where
  "isinstance obj t = (t \<in> set (sexp_mro obj))"

text \<open>\<open>obj.do_slot(name)\<close> raises \<open>LookupError\<close> when the attribute is absent.\<close>

definition do_slot :: "sexp \<Rightarrow> string \<Rightarrow> error + int list" where
  "do_slot obj name = (case slots obj name of None \<Rightarrow> Inl LookupError | Some v \<Rightarrow> Inr v)"

text \<open>
  The wrapper classes the module instantiates. \<open>S4Class c\<close> is a class taken from
  the resolver \<open>_rs4_map\<close>.
\<close>

datatype wrapper =
    DataFrame | FactorVector | POSIXct
  | IntVector | IntMatrix | IntArray
  | FloatVector | FloatMatrix | FloatArray
  | BoolVector | BoolMatrix | BoolArray
  | StrVector | StrMatrix | StrArray
  | ComplexVector | ComplexMatrix | ComplexArray
  | ByteVector | ByteMatrix | ByteArray
  | ListVector | PairlistVector | Formula | LangVector
  | RObject | SignatureTranslatedFunction | Environment
  | S4Class pyclass

text \<open>
  What a conversion returns: the object itself (\<open>return obj\<close>) or a new wrapper
  around it (\<open>return cls(obj)\<close>). The constructors of the wrapper classes are outside
  the module and are taken to succeed.
\<close>

datatype robj = Obj sexp | Construct wrapper sexp

section \<open>NameClassMap\<close>

text \<open>
  \<^verbatim>\<open>
  class NameClassMap(object):
      def __init__(self, defaultcls):
          self._default = defaultcls
          self._map = dict()
  \<close>
  The dictionary \<open>_map\<close> is only ever read and written by key, never iterated, so it
  is a map from names to classes.
\<close>

record NameClassMap =
  ncm_default :: pyclass
  ncm_map :: "string \<rightharpoonup> pyclass"

definition NameClassMap_init :: "pyclass \<Rightarrow> NameClassMap" where
  "NameClassMap_init defaultcls = \<lparr>ncm_default = defaultcls, ncm_map = Map.empty\<rparr>"

text \<open>\<^verbatim>\<open>def __contains__(self, key): return key in self._map\<close>\<close>

definition contains :: "NameClassMap \<Rightarrow> string \<Rightarrow> bool" where
  "contains m key = (ncm_map m key \<noteq> None)"

text \<open>\<^verbatim>\<open>def __delitem__(self, key): del self._map[key]\<close> raises \<open>KeyError\<close> on a
  missing key.\<close>

definition delitem :: "NameClassMap \<Rightarrow> string \<Rightarrow> error + NameClassMap" where
  "delitem m key =
     (case ncm_map m key of
        None \<Rightarrow> Inl KeyError
      | Some _ \<Rightarrow> Inr (m\<lparr>ncm_map := (ncm_map m)(key := None)\<rparr>))"

text \<open>\<^verbatim>\<open>def __getitem__(self, key): return self._map[key]\<close>\<close>

definition getitem :: "NameClassMap \<Rightarrow> string \<Rightarrow> error + pyclass" where
  "getitem m key = (case ncm_map m key of None \<Rightarrow> Inl KeyError | Some c \<Rightarrow> Inr c)"

text \<open>
  \<^verbatim>\<open>
  def __setitem__(self, key, value):
      assert issubclass(value, self._default)
      self._map[key] = value
  \<close>
\<close>

definition setitem :: "NameClassMap \<Rightarrow> string \<Rightarrow> pyclass \<Rightarrow> error + NameClassMap" where
  "setitem m key v =
     (if issubclass v (ncm_default m)
      then Inr (m\<lparr>ncm_map := (ncm_map m)(key \<mapsto> v)\<rparr>)
      else Inl AssertionError)"

text \<open>
  \<^verbatim>\<open>
  def find_key(self, keys):
      for k in keys:
          if k in self._map:
              return k
      return None
  \<close>
\<close>

fun find_key :: "NameClassMap \<Rightarrow> string list \<Rightarrow> string option" where
  "find_key m [] = None"
| "find_key m (k # keys) = (if ncm_map m k \<noteq> None then Some k else find_key m keys)"

text \<open>
  \<^verbatim>\<open>
  def find(self, keys):
      k = self.find_key(keys)
      if k:
          cls = self._map[k]
      else:
          cls = self._default
      return cls
  \<close>
  The test \<open>if k\<close> is Python truthiness: it fails for \<open>None\<close> and also for
  the empty string, so in both cases the \<open>else\<close> branch runs.
\<close>

definition find_cls :: "NameClassMap \<Rightarrow> string list \<Rightarrow> error + pyclass" where
  "find_cls m keys =
     (case find_key m keys of
        None \<Rightarrow> Inr (ncm_default m)
      | Some k \<Rightarrow> if k \<noteq> [] then getitem m k else Inr (ncm_default m))"

section \<open>NameClassMapContext\<close>

text \<open>
  \<^verbatim>\<open>
  class NameClassMapContext(object):
      def __init__(self, nameclassmap, d):
          self._nameclassmap = nameclassmap
          self._d = d
          self._keep = []
  \<close>
  \<open>_nameclassmap\<close> is a reference to the resolver shared with every other user of
  it. The model keeps the resolver outside the context object and passes it into and
  out of \<open>__enter__\<close> and \<open>__exit__\<close>, which is where the reference is followed.
  \<open>_d\<close> is a dictionary that is iterated, so it is the list of its items in
  iteration order; a dictionary holds each key once (\<open>distinct (map fst d)\<close>).
  An entry of \<open>_keep\<close> is the tuple \<open>(k, restore, orig_v)\<close>, where \<open>orig_v\<close> may be
  Python's \<open>None\<close>.
\<close>

type_synonym keep_entry = "string \<times> bool \<times> pyclass option"

record NameClassMapContext =
  ctx_d :: "(string \<times> pyclass) list"
  ctx_keep :: "keep_entry list"

definition NameClassMapContext_init :: "(string \<times> pyclass) list \<Rightarrow> NameClassMapContext" where
  "NameClassMapContext_init d = \<lparr>ctx_d = d, ctx_keep = []\<rparr>"

text \<open>
  \<^verbatim>\<open>
  def __enter__(self):
      nameclassmap = self._nameclassmap
      for k, v in self._d.items():
          if k in nameclassmap:
              restore = True
              orig_v = nameclassmap[k]
          else:
              restore = False
              orig_v = None
          self._keep.append((k, restore, orig_v))
          nameclassmap[k] = v
  \<close>
  The loop returns the exception that stopped it, if any, together with the object
  and the resolver as they are at that moment.
\<close>

fun enter_loop ::
  "(string \<times> pyclass) list \<Rightarrow> NameClassMapContext \<Rightarrow> NameClassMap
     \<Rightarrow> error option \<times> NameClassMapContext \<times> NameClassMap" where
  "enter_loop [] self m = (None, self, m)"
| "enter_loop ((k, v) # items) self m =
     (case (if contains m k
            then (case getitem m k of Inl e \<Rightarrow> Inl e | Inr c \<Rightarrow> Inr (True, Some c))
            else Inr (False, None)) of
        Inl e \<Rightarrow> (Some e, self, m)
      | Inr (restore, orig_v) \<Rightarrow>
          (let self' = self\<lparr>ctx_keep := ctx_keep self @ [(k, restore, orig_v)]\<rparr> in
           case setitem m k v of
             Inl e \<Rightarrow> (Some e, self', m)
           | Inr m' \<Rightarrow> enter_loop items self' m'))"

definition enter ::
  "NameClassMapContext \<Rightarrow> NameClassMap \<Rightarrow> error option \<times> NameClassMapContext \<times> NameClassMap" where
  "enter self m = enter_loop (ctx_d self) self m"

text \<open>
  \<^verbatim>\<open>
  def __exit__(self, exc_type, exc_val, exc_tb):
      nameclassmap = self._nameclassmap
      for k, restore, orig_v in self._keep:
          if restore:
              nameclassmap[k] = orig_v
          else:
              del(nameclassmap[k])
      return False
  \<close>
  \<open>issubclass(None, ...)\<close> raises \<open>TypeError\<close>, which is what restoring a recorded
  \<open>None\<close> would do. The method returns \<open>False\<close>: an exception of the body is not
  suppressed.
\<close>

fun exit_loop :: "keep_entry list \<Rightarrow> NameClassMap \<Rightarrow> error option \<times> NameClassMap" where
  "exit_loop [] m = (None, m)"
| "exit_loop ((k, restore, orig_v) # keep) m =
     (case (if restore
            then (case orig_v of None \<Rightarrow> Inl TypeError | Some c \<Rightarrow> setitem m k c)
            else delitem m k) of
        Inl e \<Rightarrow> (Some e, m)
      | Inr m' \<Rightarrow> exit_loop keep m')"

definition exit_ctx ::
  "NameClassMapContext \<Rightarrow> error option \<Rightarrow> NameClassMap
     \<Rightarrow> (error + bool) \<times> NameClassMapContext \<times> NameClassMap" where
  "exit_ctx self exc m =
     (case exit_loop (ctx_keep self) m of
        (Some e, m') \<Rightarrow> (Inl e, self, m')
      | (None, m') \<Rightarrow> (Inr False, self, m'))"

text \<open>
  The \<open>with\<close> statement of Python, as the module's callers use the context
  (\<open>with rs4map_context(d): body\<close>): \<open>__enter__\<close> runs first and, if it raises,
  \<open>__exit__\<close> is not called; otherwise the body runs and \<open>__exit__\<close> is called
  whether the body returned or raised. An exception raised by \<open>__exit__\<close> replaces
  the body's; a true return value of \<open>__exit__\<close> suppresses the body's exception.
  The body is any computation on the resolver: it returns the exception it raised,
  if any, and the resolver as it left it.
\<close>

definition with_stmt ::
  "NameClassMapContext \<Rightarrow> (NameClassMap \<Rightarrow> error option \<times> NameClassMap) \<Rightarrow> NameClassMap
     \<Rightarrow> error option \<times> NameClassMapContext \<times> NameClassMap" where
  "with_stmt self body m =
     (case enter self m of
        (Some e, self1, m1) \<Rightarrow> (Some e, self1, m1)
      | (None, self1, m1) \<Rightarrow>
          (case body m1 of
             (exc, m2) \<Rightarrow>
               (case exit_ctx self1 exc m2 of
                  (Inl e, self2, m3) \<Rightarrow> (Some e, self2, m3)
                | (Inr suppress, self2, m3) \<Rightarrow>
                    ((if suppress then None else exc), self2, m3))))"

text \<open>\<^verbatim>\<open>rs4map_context = partial(NameClassMapContext, _rs4_map)\<close>: every scoped
  override is a context constructed for the occasion.\<close>

definition rs4map_context :: "(string \<times> pyclass) list \<Rightarrow> NameClassMapContext" where
  "rs4map_context d = NameClassMapContext_init d"

section \<open>Promotion of R vectors\<close>

text \<open>
  \<^verbatim>\<open>
  def _vector_matrix_array(obj, vector_cls, matrix_cls, array_cls):
      try:
          dim = obj.do_slot("dim")
          if len(dim) == 2:
              return matrix_cls
          else:
              return array_cls
      except Exception:
          return vector_cls
  \<close>
\<close>

definition vector_matrix_array :: "sexp \<Rightarrow> 'c \<Rightarrow> 'c \<Rightarrow> 'c \<Rightarrow> 'c" where
  "vector_matrix_array obj vector_cls matrix_cls array_cls =
     (case do_slot obj ''dim'' of
        Inl e \<Rightarrow> vector_cls
      | Inr dim \<Rightarrow> if length dim = 2 then matrix_cls else array_cls)"

text \<open>
  \<open>sexpvector_to_ro\<close>, branch by branch as in the source. \<open>vectors.POSIXct.isrinstance\<close>
  is defined outside the module and is a parameter. \<open>cls = None\<close> is \<open>None\<close>.
\<close>

definition sexpvector_to_ro :: "(sexp \<Rightarrow> bool) \<Rightarrow> sexp \<Rightarrow> error + robj" where
  "sexpvector_to_ro posixct_isrinstance obj =
     (if \<not> isinstance obj T_SexpVector then Inl ValueError_not_vector
      else
        let rcls = rclass obj;
            cls =
              (if ''data.frame'' \<in> set rcls then Some DataFrame
               else if typeof obj = INTSXP then
                 (if ''factor'' \<in> set rcls then Some FactorVector
                  else Some (vector_matrix_array obj IntVector IntMatrix IntArray))
               else if typeof obj = REALSXP then
                 (if posixct_isrinstance obj then Some POSIXct
                  else Some (vector_matrix_array obj FloatVector FloatMatrix FloatArray))
               else if typeof obj = LGLSXP then
                 Some (vector_matrix_array obj BoolVector BoolMatrix BoolArray)
               else if typeof obj = STRSXP then
                 Some (vector_matrix_array obj StrVector StrMatrix StrArray)
               else if typeof obj = VECSXP then Some ListVector
               else if typeof obj = LISTSXP then Some PairlistVector
               else if typeof obj = LANGSXP then
                 (if ''formula'' \<in> set rcls then Some Formula else Some LangVector)
               else if typeof obj = CPLXSXP then
                 Some (vector_matrix_array obj ComplexVector ComplexMatrix ComplexArray)
               else if typeof obj = RAWSXP then
                 Some (vector_matrix_array obj ByteVector ByteMatrix ByteArray)
               else None)
        in (case cls of Some c \<Rightarrow> Inr (Construct c obj) | None \<Rightarrow> Inr (Obj obj)))"

section \<open>Inferring a vector class from a host sequence\<close>

text \<open>
  \<^verbatim>\<open>
  TYPEORDER = {bool: (0, BoolVector),
               int: (1, IntVector),
               float: (2, FloatVector),
               complex: (3, ComplexVector),
               str: (4, StrVector)}
  \<close>
\<close>

definition TYPEORDER :: "pytype \<rightharpoonup> int \<times> wrapper" where
  "TYPEORDER = map_of
     [(T_bool, (0, BoolVector)),
      (T_int, (1, IntVector)),
      (T_float, (2, FloatVector)),
      (T_complex, (3, ComplexVector)),
      (T_str, (4, StrVector))]"

text \<open>
  \<^verbatim>\<open>
  def sequence_to_vector(lst):
      curr_typeorder = -1
      i = None
      for i, elt in enumerate(lst):
          cls = type(elt)
          if cls in TYPEORDER:
              if TYPEORDER[cls][0] > curr_typeorder:
                  curr_typeorder, curr_type = TYPEORDER[cls]
          else:
              raise ValueError('The element %i in the list has a type '
                               'that cannot be handled.' % i)
      if i is None:
          raise ValueError('The parameter "lst" is an empty sequence. ...')
      res = curr_type(lst)
      return res
  \<close>
  The loop state is \<open>(i, curr_typeorder, curr_type)\<close>; \<open>curr_type\<close> is unbound
  (\<open>None\<close>) until its first assignment, and reading it unbound raises
  \<open>UnboundLocalError\<close>. The first argument of the loop is the counter of
  \<open>enumerate\<close>.
\<close>

type_synonym stv_state = "nat option \<times> int \<times> wrapper option"

fun stv_loop :: "nat \<Rightarrow> pyval list \<Rightarrow> stv_state \<Rightarrow> error + stv_state" where
  "stv_loop n [] st = Inr st"
| "stv_loop n (elt # rest) (i, curr_typeorder, curr_type) =
     (case TYPEORDER (type_of elt) of
        Some (ord, vcls) \<Rightarrow>
          if ord > curr_typeorder
          then stv_loop (Suc n) rest (Some n, ord, Some vcls)
          else stv_loop (Suc n) rest (Some n, curr_typeorder, curr_type)
      | None \<Rightarrow> Inl (ValueError_elt n))"

definition sequence_to_vector :: "pyval list \<Rightarrow> error + wrapper \<times> pyval list" where
  "sequence_to_vector lst =
     (case stv_loop 0 lst (None, - 1, None) of
        Inl e \<Rightarrow> Inl e
      | Inr (i, curr_typeorder, curr_type) \<Rightarrow>
          if i = None then Inl ValueError_empty
          else (case curr_type of
                  None \<Rightarrow> Inl UnboundLocalError
                | Some vcls \<Rightarrow> Inr (vcls, lst)))"

section \<open>The inbound handlers of the default converter\<close>

text \<open>The handlers, in the order the module defines them. \<open>anonymous_rpy2py\<close> is
  the function the source names \<open>_\<close>.\<close>

type_synonym handler = "sexp \<Rightarrow> error + robj"

definition rpy2py_robject :: handler where
  "rpy2py_robject obj = Inr (Obj obj)"

definition rpy2py_sexpclosure :: handler where
  "rpy2py_sexpclosure obj = Inr (Construct SignatureTranslatedFunction obj)"

definition rpy2py_sexpenvironment :: handler where
  "rpy2py_sexpenvironment obj = Inr (Construct Environment obj)"

text \<open>
  \<^verbatim>\<open>
  def _rpy2py_sexps4(obj):
      cls = _rs4_map.find(methods_env['extends'](obj.rclass))
      return cls(obj)
  \<close>
  R's \<open>extends\<close> and the current state of the global \<open>_rs4_map\<close> are parameters.
\<close>

definition rpy2py_sexps4 :: "(string list \<Rightarrow> string list) \<Rightarrow> NameClassMap \<Rightarrow> handler" where
  "rpy2py_sexps4 extends rs4_map obj =
     (case find_cls rs4_map (extends (rclass obj)) of
        Inl e \<Rightarrow> Inl e
      | Inr cls \<Rightarrow> Inr (Construct (S4Class cls) obj))"

definition rpy2py_sexpextptr :: handler where
  "rpy2py_sexpextptr obj = Inr (Obj obj)"

text \<open>
  \<^verbatim>\<open>
  @default_converter.rpy2py.register(object)
  def _rpy2py_object(obj):
      return RObject(obj)
  \<close>
\<close>

definition rpy2py_object :: handler where
  "rpy2py_object obj = Inr (Construct RObject obj)"

definition rpy2py_null :: handler where
  "rpy2py_null obj = Inr (Obj obj)"

text \<open>
  \<^verbatim>\<open>
  @default_converter.rpy2py.register(object)
  def _(obj):
      return obj
  \<close>
\<close>

definition anonymous_rpy2py :: handler where
  "anonymous_rpy2py obj = Inr (Obj obj)"

text \<open>
  Modelled from the spec: the inbound dispatch table of the conversion registry
  (\<open>conversion.Converter\<close> and its \<open>rpy2py.register\<close>), which the module imports
  and which is not among the sources. By the specification, \<open>registerInbound\<close>
  installs or replaces the handler of an exact type descriptor: there is no error
  on overwrite and the last registration wins.
\<close>

type_synonym registry = "pytype \<rightharpoonup> handler"

definition registerInbound :: "registry \<Rightarrow> pytype \<Rightarrow> handler \<Rightarrow> registry" where
  "registerInbound table typeDescriptor h = table(typeDescriptor \<mapsto> h)"

text \<open>
  Modelled from the spec: the resolution of a handler by the registry, also missing
  from the sources. By the specification, the handler is resolved for the runtime
  type of the value by most specific match, the exact type first and then its
  ancestors, ending with the universal fallback type "any object".
\<close>

fun resolve_handler :: "registry \<Rightarrow> pytype list \<Rightarrow> handler option" where
  "resolve_handler table [] = None"
| "resolve_handler table (t # ancestors) =
     (case table t of Some h \<Rightarrow> Some h | None \<Rightarrow> resolve_handler table ancestors)"

text \<open>
  Modelled from the spec: \<open>convertInbound\<close> of the registry, missing from the sources.
  By the specification it invokes the resolved handler on the value and signals a
  \<open>ConversionError\<close> if no handler at all is found.
\<close>

definition convertInbound :: "registry \<Rightarrow> sexp \<Rightarrow> error + robj" where
  "convertInbound table v =
     (case resolve_handler table (sexp_mro v) of
        None \<Rightarrow> Inl ConversionError
      | Some h \<Rightarrow> h v)"

text \<open>
  The registrations on \<open>default_converter.rpy2py\<close>, in the order the module makes
  them when it is imported (source lines 83, 153, 212, 217, 299, 305, 310, 315 and
  393).
\<close>

definition rpy2py_registrations ::
  "(sexp \<Rightarrow> bool) \<Rightarrow> (string list \<Rightarrow> string list) \<Rightarrow> NameClassMap \<Rightarrow> (pytype \<times> handler) list" where
  "rpy2py_registrations posixct_isrinstance extends rs4_map =
     [(T_RObject, rpy2py_robject),
      (T_SexpVector, sexpvector_to_ro posixct_isrinstance),
      (T_SexpClosure, rpy2py_sexpclosure),
      (T_SexpEnvironment, rpy2py_sexpenvironment),
      (T_SexpS4, rpy2py_sexps4 extends rs4_map),
      (T_SexpExtPtr, rpy2py_sexpextptr),
      (T_object, rpy2py_object),
      (T_NULLType, rpy2py_null),
      (T_object, anonymous_rpy2py)]"

definition default_converter_rpy2py ::
  "(sexp \<Rightarrow> bool) \<Rightarrow> (string list \<Rightarrow> string list) \<Rightarrow> NameClassMap \<Rightarrow> registry" where
  "default_converter_rpy2py posixct_isrinstance extends rs4_map =
     foldl (\<lambda>table (t, h). registerInbound table t h) Map.empty
       (rpy2py_registrations posixct_isrinstance extends rs4_map)"

section \<open>Concrete classes and resolvers\<close>

text \<open>\<^verbatim>\<open>_rs4_map = NameClassMap(RS4)\<close>: the default class of the module's resolver,
  and a few classes derived from it.\<close>

definition RS4 :: pyclass where
  "RS4 = PyClass ''RS4'' []"

definition cls_X :: pyclass where
  "cls_X = PyClass ''X'' [RS4]"

definition cls_Y :: pyclass where
  "cls_Y = PyClass ''Y'' [RS4]"

definition cls_Z :: pyclass where
  "cls_Z = PyClass ''Z'' [RS4]"

definition cls_W :: pyclass where
  "cls_W = PyClass ''W'' [cls_Y]"

text \<open>The resolver \<open>{"A": X}\<close> and a body that raises without touching it.\<close>

definition resolver_A :: NameClassMap where
  "resolver_A = \<lparr>ncm_default = RS4, ncm_map = [''A'' \<mapsto> cls_X]\<rparr>"

definition raising_body :: "NameClassMap \<Rightarrow> error option \<times> NameClassMap" where
  "raising_body m = (Some (OtherException ''boom''), m)"

text \<open>A resolver in which the empty name is registered.\<close>

definition resolver_empty_name :: NameClassMap where
  "resolver_empty_name = \<lparr>ncm_default = RS4, ncm_map = [[] \<mapsto> cls_X]\<rparr>"

section \<open>Concrete R values and host sequences\<close>




definition factor_2x2 :: sexp where
  "factor_2x2 =
     \<lparr>sexp_mro = [T_other ''IntSexpVector'', T_SexpVector, T_Sexp, T_object],
      typeof = INTSXP, rclass = [''factor''], slots = [''dim'' \<mapsto> [2, 2]]\<rparr>"

definition int_data_frame :: sexp where
  "int_data_frame =
     \<lparr>sexp_mro = [T_other ''IntSexpVector'', T_SexpVector, T_Sexp, T_object],
      typeof = INTSXP, rclass = [''data.frame''], slots = Map.empty\<rparr>"

text \<open>An R symbol: a \<open>Sexp\<close> that is none of the types the module registers a
  specific handler for.\<close>

definition symbol_sexp :: sexp where
  "symbol_sexp =
     \<lparr>sexp_mro = [T_other ''SexpSymbol'', T_Sexp, T_object],
      typeof = SYMSXP, rclass = [''name''], slots = Map.empty\<rparr>"

text \<open>The sequences \<open>[True, 1, "s"]\<close> and \<open>[1, None]\<close>.\<close>

definition mixed_sequence :: "pyval list" where
  "mixed_sequence = [PyVal T_bool ''True'', PyVal T_int ''1'', PyVal T_str ''s'']"

definition sequence_with_none :: "pyval list" where
  "sequence_with_none = [PyVal T_int ''1'', PyVal (T_other ''NoneType'') ''None'']"


section \<open>Well-formed resolvers\<close>

definition ncm_inv :: "NameClassMap \<Rightarrow> bool" where
  "ncm_inv m = (\<forall>k c. ncm_map m k = Some c \<longrightarrow> issubclass c (ncm_default m))"

section \<open>Entering and leaving a scoped override\<close>

lemma issubclass_refl: "issubclass c c"
  by (cases c) simp

lemma enter_loop_ok:
  assumes "enter_loop items self m = (None, self', m')" "distinct (map fst items)"
  shows "ctx_keep self' = ctx_keep self @ map (\<lambda>(k, v). (k, ncm_map m k \<noteq> None, ncm_map m k)) items
       \<and> ctx_d self' = ctx_d self
       \<and> ncm_default m' = ncm_default m
       \<and> ncm_map m' = ncm_map m ++ map_of items
       \<and> list_all (\<lambda>(k, v). issubclass v (ncm_default m)) items"
  using assms
proof (induction items arbitrary: self m)
  case Nil
  then show ?case by simp
next
  case (Cons kv items)
  obtain k v where kv: "kv = (k, v)" by (cases kv)
  let ?self1 = "self\<lparr>ctx_keep := ctx_keep self @ [(k, ncm_map m k \<noteq> None, ncm_map m k)]\<rparr>"
  let ?m1 = "m\<lparr>ncm_map := (ncm_map m)(k \<mapsto> v)\<rparr>"
  from Cons.prems(1) have sub: "issubclass v (ncm_default m)"
    and rest: "enter_loop items ?self1 ?m1 = (None, self', m')"
    by (auto simp: kv contains_def getitem_def setitem_def Let_def split: option.splits if_splits)
  from Cons.prems(2) have d: "distinct (map fst items)" and nk: "k \<notin> fst ` set items"
    by (auto simp: kv)
  have agree: "map (\<lambda>(k', v'). (k', ncm_map ?m1 k' \<noteq> None, ncm_map ?m1 k')) items
             = map (\<lambda>(k', v'). (k', ncm_map m k' \<noteq> None, ncm_map m k')) items"
    using nk by (auto simp: image_iff)
  have madd: "(ncm_map m)(k \<mapsto> v) ++ map_of items = ncm_map m ++ map_of ((k, v) # items)"
  proof -
    from nk have "map_of items k = None" by (simp add: map_of_eq_None_iff)
    then show ?thesis by (auto simp: map_add_def fun_eq_iff split: option.splits)
  qed
  note ih = Cons.IH[OF rest d]
  have c1: "ctx_keep self' = ctx_keep self
              @ map (\<lambda>(k, v). (k, ncm_map m k \<noteq> None, ncm_map m k)) (kv # items)"
    using ih agree unfolding kv by simp
  have c2: "ctx_d self' = ctx_d self" using ih by simp
  have c3: "ncm_default m' = ncm_default m" using ih by simp
  have c4: "ncm_map m' = ncm_map m ++ map_of (kv # items)"
  proof -
    from ih have "ncm_map m' = ncm_map ?m1 ++ map_of items" by blast
    moreover have "ncm_map ?m1 = (ncm_map m)(k \<mapsto> v)" by simp
    ultimately show ?thesis using madd unfolding kv by (simp only:)
  qed
  have c5: "list_all (\<lambda>(k, v). issubclass v (ncm_default m)) (kv # items)"
    using ih sub unfolding kv by simp
  from c1 c2 c3 c4 c5 show ?case by blast
qed

lemma exit_loop_restores:
  assumes "distinct (map fst items)"
    and "\<forall>k c. m0 k = Some c \<longrightarrow> issubclass c (ncm_default M)"
    and "\<forall>k \<in> fst ` set items. m0 k = None \<longrightarrow> ncm_map M k \<noteq> None"
  shows "exit_loop (map (\<lambda>(k, v). (k, m0 k \<noteq> None, m0 k)) items) M
       = (None, M\<lparr>ncm_map := (\<lambda>x. if x \<in> fst ` set items then m0 x else ncm_map M x)\<rparr>)"
  using assms
proof (induction items arbitrary: M)
  case Nil
  then show ?case by simp
next
  case (Cons kv items)
  obtain k v where kv: "kv = (k, v)" by (cases kv)
  let ?M1 = "M\<lparr>ncm_map := (ncm_map M)(k := m0 k)\<rparr>"
  from Cons.prems have d: "distinct (map fst items)" and nk: "k \<notin> fst ` set items"
    by (auto simp: kv)
  have step: "(if m0 k \<noteq> None
               then (case m0 k of None \<Rightarrow> Inl TypeError | Some c \<Rightarrow> setitem M k c)
               else delitem M k) = Inr ?M1"
    using Cons.prems(2,3) by (auto simp: kv setitem_def delitem_def split: option.splits)
  have p2: "\<forall>k c. m0 k = Some c \<longrightarrow> issubclass c (ncm_default ?M1)"
    using Cons.prems(2) by simp
  have p3: "\<forall>k' \<in> fst ` set items. m0 k' = None \<longrightarrow> ncm_map ?M1 k' \<noteq> None"
    using Cons.prems(3) nk by (auto simp: kv)
  have eq: "?M1\<lparr>ncm_map := (\<lambda>x. if x \<in> fst ` set items then m0 x else ncm_map ?M1 x)\<rparr>
          = M\<lparr>ncm_map := (\<lambda>x. if x \<in> fst ` set (kv # items) then m0 x else ncm_map M x)\<rparr>"
    by (auto simp: kv fun_eq_iff)
  show ?case
    using Cons.IH[OF d p2 p3] step eq by (simp add: kv)
qed


lemma enter_loop_succeeds:
  assumes "list_all (\<lambda>(k, v). issubclass v (ncm_default m)) items"
  shows "\<exists>self' m'. enter_loop items self m = (None, self', m')"
  using assms
proof (induction items arbitrary: self m)
  case Nil
  then show ?case by simp
next
  case (Cons kv items)
  obtain k v where kv: "kv = (k, v)" by (cases kv)
  let ?m1 = "m\<lparr>ncm_map := (ncm_map m)(k \<mapsto> v)\<rparr>"
  from Cons.prems have "list_all (\<lambda>(k, v). issubclass v (ncm_default ?m1)) items"
    by (simp add: kv)
  from Cons.IH[OF this] Cons.prems show ?case
    by (auto simp: kv contains_def getitem_def setitem_def Let_def split: option.splits)
qed

lemma issubclass_examples:
  "issubclass cls_X RS4" "issubclass cls_Y RS4" "issubclass cls_Z RS4" "issubclass cls_W RS4"
  "issubclass RS4 RS4"
  by (simp_all add: cls_X_def cls_Y_def cls_Z_def cls_W_def RS4_def)

lemma ncm_inv_resolver_A: "ncm_inv resolver_A"
  by (simp add: ncm_inv_def resolver_A_def issubclass_examples)

text \<open>
  Claim C1. A scoped override is a context built for the occasion
  (\<open>rs4map_context d\<close>) and run by a \<open>with\<close> statement on a well-formed resolver.
  Once the scope is opened (\<open>__enter__\<close> returned), and whether the body returns
  normally or raises (\<open>exc\<close> is whatever it raised), \<open>__exit__\<close> completes without
  an error of its own and leaves the resolver exactly as it was at entry: the same
  default and the same table, so a key that existed maps to its previous class and a
  key that did not exist is absent again. The body is any computation that leaves
  the resolver as it found it, which includes bodies that open and close further
  overrides. The body's exception, if any, propagates.
\<close>

theorem scoped_override_restores_table:
  assumes inv: "ncm_inv m"
    and dict: "distinct (map fst d)"
    and opened: "enter (rs4map_context d) m = (None, self1, m1)"
    and body: "body m1 = (exc, m1)"
  shows "with_stmt (rs4map_context d) body m = (exc, self1, m)"
proof -
  from opened have loop: "enter_loop d (NameClassMapContext_init d) m = (None, self1, m1)"
    by (simp add: enter_def rs4map_context_def NameClassMapContext_init_def)
  from enter_loop_ok[OF loop dict]
  have keep: "ctx_keep self1 = map (\<lambda>(k, v). (k, ncm_map m k \<noteq> None, ncm_map m k)) d"
    and dflt: "ncm_default m1 = ncm_default m"
    and tbl: "ncm_map m1 = ncm_map m ++ map_of d"
    by (simp_all add: NameClassMapContext_init_def)
  have p2: "\<forall>k c. ncm_map m k = Some c \<longrightarrow> issubclass c (ncm_default m1)"
    using inv dflt by (simp add: ncm_inv_def)
  have p3: "\<forall>k \<in> fst ` set d. ncm_map m k = None \<longrightarrow> ncm_map m1 k \<noteq> None"
  proof (intro ballI impI)
    fix k assume "k \<in> fst ` set d" "ncm_map m k = None"
    then have "map_of d k \<noteq> None" by (simp add: map_of_eq_None_iff)
    then show "ncm_map m1 k \<noteq> None" by (auto simp: tbl map_add_def)
  qed
  have restored: "m1\<lparr>ncm_map := (\<lambda>x. if x \<in> fst ` set d then ncm_map m x else ncm_map m1 x)\<rparr> = m"
  proof -
    have "(if x \<in> fst ` set d then ncm_map m x else ncm_map m1 x) = ncm_map m x" for x
    proof (cases "x \<in> fst ` set d")
      case True
      then show ?thesis by simp
    next
      case False
      then have "map_of d x = None" by (simp add: map_of_eq_None_iff)
      then show ?thesis using False by (simp add: tbl map_add_def)
    qed
    then have "(\<lambda>x. if x \<in> fst ` set d then ncm_map m x else ncm_map m1 x) = ncm_map m"
      by (simp add: fun_eq_iff)
    moreover have "NameClassMap.more m1 = NameClassMap.more m" by simp
    ultimately show ?thesis using dflt by (cases m, cases m1) simp
  qed
  have "exit_loop (ctx_keep self1) m1 = (None, m)"
    using exit_loop_restores[OF dict p2 p3] keep restored by simp
  then show ?thesis
    using opened body by (simp add: with_stmt_def exit_ctx_def)
qed

text \<open>The scenario of the specification: the resolver \<open>{"A": X}\<close>, the override
  \<open>{"A": Y, "B": Z}\<close> and a body that raises.\<close>

theorem scoped_override_restores_table_witness:
  "with_stmt (rs4map_context [(''A'', cls_Y), (''B'', cls_Z)]) raising_body resolver_A
     = (Some (OtherException ''boom''),
        \<lparr>ctx_d = [(''A'', cls_Y), (''B'', cls_Z)],
         ctx_keep = [(''A'', True, Some cls_X), (''B'', False, None)]\<rparr>,
        resolver_A)"
proof (rule scoped_override_restores_table)
  show "ncm_inv resolver_A" by (rule ncm_inv_resolver_A)
  show "distinct (map fst [(''A'', cls_Y), (''B'', cls_Z)])" by simp
  show "enter (rs4map_context [(''A'', cls_Y), (''B'', cls_Z)]) resolver_A
      = (None,
         \<lparr>ctx_d = [(''A'', cls_Y), (''B'', cls_Z)],
          ctx_keep = [(''A'', True, Some cls_X), (''B'', False, None)]\<rparr>,
         resolver_A\<lparr>ncm_map := [''A'' \<mapsto> cls_Y, ''B'' \<mapsto> cls_Z]\<rparr>)"
    by (simp add: enter_def rs4map_context_def NameClassMapContext_init_def resolver_A_def
        contains_def getitem_def setitem_def issubclass_examples)
  show "raising_body (resolver_A\<lparr>ncm_map := [''A'' \<mapsto> cls_Y, ''B'' \<mapsto> cls_Z]\<rparr>)
      = (Some (OtherException ''boom''), resolver_A\<lparr>ncm_map := [''A'' \<mapsto> cls_Y, ''B'' \<mapsto> cls_Z]\<rparr>)"
    by (simp add: raising_body_def)
qed

section \<open>Nested overrides\<close>

text \<open>
  Claim C2. On a well-formed resolver whose table maps \<open>"A"\<close> to \<open>X\<close>, an outer
  override \<open>{"A": Y}\<close> is entered, then an inner override \<open>{"A": W}\<close> while the outer
  one is active, and the two are left in last-in-first-out order. Both entries
  succeed (\<open>Y\<close> and \<open>W\<close> pass the assertion of \<open>__setitem__\<close>); inside the outer scope
  \<open>"A"\<close> resolves to \<open>Y\<close>, inside the inner scope to \<open>W\<close>, after the inner exit to
  \<open>Y\<close> again and after the outer exit to \<open>X\<close>, the resolver being then the one the
  sequence started from. Neither exit raises.
\<close>

theorem nested_overrides_unwind_lifo:
  assumes tbl: "ncm_map m ''A'' = Some X"
    and inv: "ncm_inv m"
    and subY: "issubclass Y (ncm_default m)"
    and subW: "issubclass W (ncm_default m)"
  shows "\<exists>outer1 m1 inner1 m2 inner2 m3 outer2 m4.
           enter (rs4map_context [(''A'', Y)]) m = (None, outer1, m1)
         \<and> find_cls m1 [''A''] = Inr Y
         \<and> enter (rs4map_context [(''A'', W)]) m1 = (None, inner1, m2)
         \<and> find_cls m2 [''A''] = Inr W
         \<and> exit_ctx inner1 exc_inner m2 = (Inr False, inner2, m3)
         \<and> find_cls m3 [''A''] = Inr Y
         \<and> exit_ctx outer1 exc_outer m3 = (Inr False, outer2, m4)
         \<and> find_cls m4 [''A''] = Inr X
         \<and> m4 = m"
proof -
  from tbl inv have subX: "issubclass X (ncm_default m)"
    by (simp add: ncm_inv_def)
  let ?outer = "\<lparr>ctx_d = [(''A'', Y)], ctx_keep = [(''A'', True, Some X)]\<rparr>"
  let ?inner = "\<lparr>ctx_d = [(''A'', W)], ctx_keep = [(''A'', True, Some Y)]\<rparr>"
  let ?m1 = "m\<lparr>ncm_map := (ncm_map m)(''A'' \<mapsto> Y)\<rparr>"
  let ?m2 = "m\<lparr>ncm_map := (ncm_map m)(''A'' \<mapsto> W)\<rparr>"
  have same: "(ncm_map m)(''A'' \<mapsto> X) = ncm_map m"
    using tbl by (auto simp: fun_eq_iff)
  have e1: "enter (rs4map_context [(''A'', Y)]) m = (None, ?outer, ?m1)"
    using tbl subY
    by (simp add: enter_def rs4map_context_def NameClassMapContext_init_def
        contains_def getitem_def setitem_def)
  have f1: "find_cls ?m1 [''A''] = Inr Y"
    by (simp add: find_cls_def getitem_def)
  have e2: "enter (rs4map_context [(''A'', W)]) ?m1 = (None, ?inner, ?m2)"
    using subW
    by (simp add: enter_def rs4map_context_def NameClassMapContext_init_def
        contains_def getitem_def setitem_def)
  have f2: "find_cls ?m2 [''A''] = Inr W"
    by (simp add: find_cls_def getitem_def)
  have x1: "exit_ctx ?inner exc_inner ?m2 = (Inr False, ?inner, ?m1)"
    using subY by (simp add: exit_ctx_def setitem_def)
  have x2: "exit_ctx ?outer exc_outer ?m1 = (Inr False, ?outer, m)"
    using subX same by (simp add: exit_ctx_def setitem_def)
  have f4: "find_cls m [''A''] = Inr X"
    using tbl by (simp add: find_cls_def getitem_def)
  from e1 f1 e2 f2 x1 x2 f4 show ?thesis by blast
qed

text \<open>The classes \<open>X\<close>, \<open>Y\<close> and \<open>W\<close> on the resolver \<open>{"A": X}\<close>.\<close>

theorem nested_overrides_unwind_lifo_witness:
  "\<exists>outer1 m1 inner1 m2 inner2 m3 outer2 m4.
           enter (rs4map_context [(''A'', cls_Y)]) resolver_A = (None, outer1, m1)
         \<and> find_cls m1 [''A''] = Inr cls_Y
         \<and> enter (rs4map_context [(''A'', cls_W)]) m1 = (None, inner1, m2)
         \<and> find_cls m2 [''A''] = Inr cls_W
         \<and> exit_ctx inner1 None m2 = (Inr False, inner2, m3)
         \<and> find_cls m3 [''A''] = Inr cls_Y
         \<and> exit_ctx outer1 None m3 = (Inr False, outer2, m4)
         \<and> find_cls m4 [''A''] = Inr cls_X
         \<and> m4 = resolver_A"
proof (rule nested_overrides_unwind_lifo)
  show "ncm_map resolver_A ''A'' = Some cls_X" by (simp add: resolver_A_def)
  show "ncm_inv resolver_A" by (rule ncm_inv_resolver_A)
  show "issubclass cls_Y (ncm_default resolver_A)"
    by (simp add: resolver_A_def issubclass_examples)
  show "issubclass cls_W (ncm_default resolver_A)"
    by (simp add: resolver_A_def issubclass_examples)
qed

section \<open>The recorded snapshot\<close>

lemma exit_ctx_self: "exit_ctx self exc m = (r, self', m') \<Longrightarrow> self' = self"
  by (auto simp: exit_ctx_def split: prod.splits option.splits)

text \<open>
  Claim C9, as the code has it. The snapshot is the list \<open>_keep\<close> of the override
  instance, empty at construction. Entry appends one entry per overridden key
  (the key, whether it existed, its previous class); exit reads the list and leaves
  it in the instance, whether or not it raises. So after exit the instance still
  holds exactly the entries recorded at entry, as many as the override has keys.
\<close>

theorem snapshot_kept_after_exit:
  assumes dict: "distinct (map fst d)"
    and opened: "enter (NameClassMapContext_init d) m = (None, self1, m1)"
    and left: "exit_ctx self1 exc m2 = (r, self2, m3)"
  shows "ctx_keep self1 = map (\<lambda>(k, v). (k, ncm_map m k \<noteq> None, ncm_map m k)) d
       \<and> ctx_keep self2 = ctx_keep self1
       \<and> ctx_d self2 = d
       \<and> length (ctx_keep self2) = length d"
proof -
  from opened have loop: "enter_loop d (NameClassMapContext_init d) m = (None, self1, m1)"
    by (simp add: enter_def NameClassMapContext_init_def)
  from enter_loop_ok[OF loop dict]
  have k1: "ctx_keep self1 = map (\<lambda>(k, v). (k, ncm_map m k \<noteq> None, ncm_map m k)) d"
    and d1: "ctx_d self1 = d"
    by (simp_all add: NameClassMapContext_init_def)
  from left have s2: "self2 = self1" by (rule exit_ctx_self)
  from k1 d1 s2 show ?thesis by simp
qed

text \<open>
  Claim C9 as stated fails: the override \<open>{"B": Z}\<close> on the resolver \<open>{"A": X}\<close> is
  entered and left; the instance then still holds the entry recorded for \<open>"B"\<close>, and
  entering it again gives a snapshot of two entries.
\<close>

theorem snapshot_discarded_counterexample:
  "enter (NameClassMapContext_init [(''B'', cls_Z)]) resolver_A
     = (None,
        \<lparr>ctx_d = [(''B'', cls_Z)], ctx_keep = [(''B'', False, None)]\<rparr>,
        resolver_A\<lparr>ncm_map := [''A'' \<mapsto> cls_X, ''B'' \<mapsto> cls_Z]\<rparr>)
   \<and> exit_ctx \<lparr>ctx_d = [(''B'', cls_Z)], ctx_keep = [(''B'', False, None)]\<rparr> None
        (resolver_A\<lparr>ncm_map := [''A'' \<mapsto> cls_X, ''B'' \<mapsto> cls_Z]\<rparr>)
     = (Inr False,
        \<lparr>ctx_d = [(''B'', cls_Z)], ctx_keep = [(''B'', False, None)]\<rparr>,
        resolver_A)
   \<and> ctx_keep \<lparr>ctx_d = [(''B'', cls_Z)], ctx_keep = [(''B'', False, None)]\<rparr> \<noteq> []
   \<and> enter \<lparr>ctx_d = [(''B'', cls_Z)], ctx_keep = [(''B'', False, None)]\<rparr> resolver_A
     = (None,
        \<lparr>ctx_d = [(''B'', cls_Z)], ctx_keep = [(''B'', False, None), (''B'', False, None)]\<rparr>,
        resolver_A\<lparr>ncm_map := [''A'' \<mapsto> cls_X, ''B'' \<mapsto> cls_Z]\<rparr>)"
  by (simp add: enter_def NameClassMapContext_init_def resolver_A_def
        contains_def getitem_def setitem_def delitem_def exit_ctx_def issubclass_examples)

text \<open>The override \<open>{"B": Z}\<close> on the resolver \<open>{"A": X}\<close>, entered and left.\<close>

theorem snapshot_kept_after_exit_witness:
  "enter (NameClassMapContext_init [(''B'', cls_Z)]) resolver_A
     = (None,
        \<lparr>ctx_d = [(''B'', cls_Z)], ctx_keep = [(''B'', False, None)]\<rparr>,
        resolver_A\<lparr>ncm_map := [''A'' \<mapsto> cls_X, ''B'' \<mapsto> cls_Z]\<rparr>)
   \<and> ctx_keep \<lparr>ctx_d = [(''B'', cls_Z)], ctx_keep = [(''B'', False, None)]\<rparr>
      = map (\<lambda>(k, v). (k, ncm_map resolver_A k \<noteq> None, ncm_map resolver_A k)) [(''B'', cls_Z)]
   \<and> length (ctx_keep \<lparr>ctx_d = [(''B'', cls_Z)], ctx_keep = [(''B'', False, None)]\<rparr>)
      = length [(''B'', cls_Z)]"
proof -
  let ?d = "[(''B'', cls_Z)]"
  let ?s1 = "\<lparr>ctx_d = ?d, ctx_keep = [(''B'', False, None)]\<rparr>"
  let ?m1 = "resolver_A\<lparr>ncm_map := [''A'' \<mapsto> cls_X, ''B'' \<mapsto> cls_Z]\<rparr>"
  have dict: "distinct (map fst ?d)" by simp
  have opened: "enter (NameClassMapContext_init ?d) resolver_A = (None, ?s1, ?m1)"
    by (simp add: enter_def NameClassMapContext_init_def resolver_A_def
        contains_def getitem_def setitem_def issubclass_examples)
  have left: "exit_ctx ?s1 None ?m1 = (Inr False, ?s1, resolver_A)"
    by (simp add: exit_ctx_def delitem_def resolver_A_def)
  from snapshot_kept_after_exit[OF dict opened left] opened
  show ?thesis by blast
qed

text \<open>Leaving the instance after that second entry deletes \<open>"B"\<close> twice: the
  second deletion raises \<open>KeyError\<close>.\<close>

lemma reentered_override_exit_raises:
  "exit_ctx \<lparr>ctx_d = [(''B'', cls_Z)], ctx_keep = [(''B'', False, None), (''B'', False, None)]\<rparr> None
        (resolver_A\<lparr>ncm_map := [''A'' \<mapsto> cls_X, ''B'' \<mapsto> cls_Z]\<rparr>)
     = (Inl KeyError,
        \<lparr>ctx_d = [(''B'', cls_Z)], ctx_keep = [(''B'', False, None), (''B'', False, None)]\<rparr>,
        resolver_A)"
  by (simp add: resolver_A_def delitem_def exit_ctx_def)

section \<open>The subclass invariant of the resolver\<close>

lemma ncm_inv_init: "ncm_inv (NameClassMap_init defaultcls)"
  by (simp add: ncm_inv_def NameClassMap_init_def)

lemma setitem_inv:
  "ncm_inv m \<Longrightarrow> setitem m k v = Inr m' \<Longrightarrow> ncm_inv m' \<and> ncm_default m' = ncm_default m"
  by (auto simp: ncm_inv_def setitem_def split: if_splits)

lemma delitem_inv:
  "ncm_inv m \<Longrightarrow> delitem m k = Inr m' \<Longrightarrow> ncm_inv m' \<and> ncm_default m' = ncm_default m"
  by (auto simp: ncm_inv_def delitem_def split: option.splits if_splits)

lemma enter_loop_Cons:
  "enter_loop ((k, v) # items) self m =
     (if issubclass v (ncm_default m)
      then enter_loop items
             (self\<lparr>ctx_keep := ctx_keep self @ [(k, ncm_map m k \<noteq> None, ncm_map m k)]\<rparr>)
             (m\<lparr>ncm_map := (ncm_map m)(k \<mapsto> v)\<rparr>)
      else (Some AssertionError,
            self\<lparr>ctx_keep := ctx_keep self @ [(k, ncm_map m k \<noteq> None, ncm_map m k)]\<rparr>, m))"
  by (cases "ncm_map m k") (simp_all add: contains_def getitem_def setitem_def)

lemma enter_loop_inv:
  "ncm_inv m \<Longrightarrow> enter_loop items self m = (e, self', m')
     \<Longrightarrow> ncm_inv m' \<and> ncm_default m' = ncm_default m"
proof (induction items arbitrary: self m)
  case Nil
  then show ?case by simp
next
  case (Cons kv items)
  obtain k v where kv: "kv = (k, v)" by (cases kv)
  let ?s1 = "self\<lparr>ctx_keep := ctx_keep self @ [(k, ncm_map m k \<noteq> None, ncm_map m k)]\<rparr>"
  let ?m1 = "m\<lparr>ncm_map := (ncm_map m)(k \<mapsto> v)\<rparr>"
  show ?case
  proof (cases "issubclass v (ncm_default m)")
    case False
    with Cons.prems(2) have "m' = m" by (simp add: kv enter_loop_Cons del: enter_loop.simps)
    with Cons.prems(1) show ?thesis by simp
  next
    case True
    then have "setitem m k v = Inr ?m1" by (simp add: setitem_def)
    with Cons.prems(1) have i1: "ncm_inv ?m1" using setitem_inv by blast
    from Cons.prems(2) True have "enter_loop items ?s1 ?m1 = (e, self', m')"
      by (simp add: kv enter_loop_Cons del: enter_loop.simps)
    from Cons.IH[OF i1 this] show ?thesis by simp
  qed
qed

lemma exit_step_inv:
  assumes "ncm_inv m"
    and "(if restore
          then (case orig_v of None \<Rightarrow> Inl TypeError | Some c \<Rightarrow> setitem m k c)
          else delitem m k) = Inr m1"
  shows "ncm_inv m1 \<and> ncm_default m1 = ncm_default m"
proof (cases restore)
  case True
  with assms(2) obtain c where "setitem m k c = Inr m1"
    by (cases orig_v) simp_all
  with assms(1) show ?thesis by (rule setitem_inv)
next
  case False
  with assms(2) have "delitem m k = Inr m1" by simp
  with assms(1) show ?thesis by (rule delitem_inv)
qed

lemma exit_loop_inv:
  "ncm_inv m \<Longrightarrow> exit_loop keep m = (e, m')
     \<Longrightarrow> ncm_inv m' \<and> ncm_default m' = ncm_default m"
proof (induction keep arbitrary: m)
  case Nil
  then show ?case by simp
next
  case (Cons entry keep)
  obtain k restore orig_v where en: "entry = (k, restore, orig_v)" by (cases entry)
  let ?step = "if restore
            then (case orig_v of None \<Rightarrow> Inl TypeError | Some c \<Rightarrow> setitem m k c)
            else delitem m k"
  show ?case
  proof (cases ?step)
    case (Inl err)
    with Cons.prems(2) have "m' = m" by (simp add: en)
    with Cons.prems(1) show ?thesis by simp
  next
    case (Inr m1)
    with Cons.prems(1) have i1: "ncm_inv m1" and d1: "ncm_default m1 = ncm_default m"
      using exit_step_inv by blast+
    from Cons.prems(2) Inr have "exit_loop keep m1 = (e, m')"
      by (simp add: en)
    from Cons.IH[OF i1 this] d1 show ?thesis by simp
  qed
qed

lemma find_key_Some:
  "find_key m keys = Some k \<Longrightarrow> k \<in> set keys \<and> ncm_map m k \<noteq> None"
  by (induction keys) (auto split: if_splits)

lemma find_cls_inv:
  assumes "ncm_inv m"
  shows "\<exists>c. find_cls m keys = Inr c \<and> issubclass c (ncm_default m)"
proof (cases "find_key m keys")
  case None
  then show ?thesis by (simp add: find_cls_def issubclass_refl)
next
  case (Some k)
  then obtain c where c: "ncm_map m k = Some c"
    using find_key_Some by fastforce
  with assms have "issubclass c (ncm_default m)" by (simp add: ncm_inv_def)
  with Some c show ?thesis
    by (simp add: find_cls_def getitem_def issubclass_refl)
qed

text \<open>
  Claim C10. Every class stored in a \<open>NameClassMap\<close> is a subclass of the map's
  default class (\<open>ncm_inv\<close>). A new map satisfies this. \<open>__setitem__\<close> fails its
  assertion exactly when the value is not a subclass of the default, and when it
  succeeds the value is one and the invariant still holds. Deletion, the entry of a
  scoped override and its exit keep the invariant and the default, whether they
  complete or raise part-way. On a map that satisfies the invariant \<open>find\<close> returns
  a class, and it is a subclass of the default.
\<close>

theorem stored_classes_are_subclasses:
  assumes "ncm_inv m"
  shows "ncm_inv (NameClassMap_init defaultcls)
       \<and> (setitem m k v = Inl AssertionError \<longleftrightarrow> \<not> issubclass v (ncm_default m))
       \<and> (\<forall>m'. setitem m k v = Inr m' \<longrightarrow>
             issubclass v (ncm_default m) \<and> ncm_inv m' \<and> ncm_default m' = ncm_default m)
       \<and> (\<forall>m'. delitem m k = Inr m' \<longrightarrow> ncm_inv m' \<and> ncm_default m' = ncm_default m)
       \<and> (\<forall>e self' m'. enter self m = (e, self', m') \<longrightarrow>
             ncm_inv m' \<and> ncm_default m' = ncm_default m)
       \<and> (\<forall>r self' m'. exit_ctx self exc m = (r, self', m') \<longrightarrow>
             ncm_inv m' \<and> ncm_default m' = ncm_default m)
       \<and> (\<exists>c. find_cls m keys = Inr c \<and> issubclass c (ncm_default m))"
proof (intro conjI allI impI)
  show "ncm_inv (NameClassMap_init defaultcls)" by (rule ncm_inv_init)
  show "setitem m k v = Inl AssertionError \<longleftrightarrow> \<not> issubclass v (ncm_default m)"
    by (simp add: setitem_def)
  show "\<exists>c. find_cls m keys = Inr c \<and> issubclass c (ncm_default m)"
    using assms by (rule find_cls_inv)
next
  fix m' assume "setitem m k v = Inr m'"
  then show "issubclass v (ncm_default m)" "ncm_inv m'" "ncm_default m' = ncm_default m"
    using assms setitem_inv[of m k v m'] by (simp_all add: setitem_def split: if_splits)
next
  fix m' assume "delitem m k = Inr m'"
  then show "ncm_inv m'" "ncm_default m' = ncm_default m"
    using assms delitem_inv by blast+
next
  fix e self' m' assume "enter self m = (e, self', m')"
  then show "ncm_inv m'" "ncm_default m' = ncm_default m"
    using assms enter_loop_inv unfolding enter_def by blast+
next
  fix r self' m' assume "exit_ctx self exc m = (r, self', m')"
  then obtain e where "exit_loop (ctx_keep self) m = (e, m')"
    by (auto simp: exit_ctx_def split: prod.splits option.splits)
  then show "ncm_inv m'" "ncm_default m' = ncm_default m"
    using assms exit_loop_inv by blast+
qed

text \<open>On the resolver \<open>{"A": X}\<close>: registering \<open>Z\<close> succeeds and keeps the
  invariant, registering a class that does not derive from the default is rejected,
  and resolving \<open>["B", "A"]\<close> gives a subclass of the default.\<close>

theorem stored_classes_are_subclasses_witness:
  "ncm_inv resolver_A
   \<and> ncm_inv (NameClassMap_init RS4)
   \<and> setitem resolver_A ''B'' cls_Z
       = Inr (resolver_A\<lparr>ncm_map := [''A'' \<mapsto> cls_X, ''B'' \<mapsto> cls_Z]\<rparr>)
   \<and> ncm_inv (resolver_A\<lparr>ncm_map := [''A'' \<mapsto> cls_X, ''B'' \<mapsto> cls_Z]\<rparr>)
   \<and> \<not> issubclass (PyClass ''object'' []) (ncm_default resolver_A)
   \<and> setitem resolver_A ''B'' (PyClass ''object'' []) = Inl AssertionError
   \<and> (\<exists>c. find_cls resolver_A [''B'', ''A''] = Inr c \<and> issubclass c (ncm_default resolver_A))"
proof -
  note inv = ncm_inv_resolver_A
  have set_Z: "setitem resolver_A ''B'' cls_Z
       = Inr (resolver_A\<lparr>ncm_map := [''A'' \<mapsto> cls_X, ''B'' \<mapsto> cls_Z]\<rparr>)"
    by (simp add: setitem_def resolver_A_def issubclass_examples)
  have not_sub: "\<not> issubclass (PyClass ''object'' []) (ncm_default resolver_A)"
    by (simp add: resolver_A_def RS4_def)
  from stored_classes_are_subclasses[OF inv, of RS4 "''B''" cls_Z]
  have "ncm_inv (NameClassMap_init RS4)"
    and "ncm_inv (resolver_A\<lparr>ncm_map := [''A'' \<mapsto> cls_X, ''B'' \<mapsto> cls_Z]\<rparr>)"
    using set_Z by blast+
  moreover from stored_classes_are_subclasses[OF inv, of RS4 "''B''" "PyClass ''object'' []"]
  have "setitem resolver_A ''B'' (PyClass ''object'' []) = Inl AssertionError"
    using not_sub by blast
  moreover from stored_classes_are_subclasses[OF inv, of RS4 "''B''" cls_Z "rs4map_context []" None "[''B'', ''A'']"]
  have "\<exists>c. find_cls resolver_A [''B'', ''A''] = Inr c \<and> issubclass c (ncm_default resolver_A)"
    by blast
  ultimately show ?thesis using inv set_Z not_sub by blast
qed

section \<open>Resolving candidate names\<close>

lemma find_key_is_first_present:
  "find_key m keys = List.find (contains m) keys"
  by (induction keys) (simp_all add: contains_def)

lemma find_key_None: "find_key m keys = None \<longleftrightarrow> (\<forall>k \<in> set keys. \<not> contains m k)"
  by (auto simp: find_key_is_first_present find_None_iff)

lemma find_cls_no_candidate:
  "find_key m keys = None \<Longrightarrow> find_cls m keys = Inr (ncm_default m)"
  by (simp add: find_cls_def)

lemma find_cls_first_present:
  "find_key m keys = Some k \<Longrightarrow> k \<noteq> [] \<Longrightarrow> \<exists>c. ncm_map m k = Some c \<and> find_cls m keys = Inr c"
  using find_key_Some[of m keys k] by (auto simp: find_cls_def getitem_def)

text \<open>
  Claim C5 fails on the code when the first candidate present in the table is the
  empty name. The name is registered through \<open>__setitem__\<close>, \<open>find_key\<close> returns it
  and \<open>__getitem__\<close> gives its class \<open>X\<close>, but \<open>find\<close> tests the key with \<open>if k\<close>,
  takes the empty string for "no key" and returns the default class \<open>RS4\<close>.
\<close>

theorem find_empty_name_returns_default:
  "setitem (NameClassMap_init RS4) [] cls_X = Inr resolver_empty_name
   \<and> find_key resolver_empty_name [[]] = Some []
   \<and> getitem resolver_empty_name [] = Inr cls_X
   \<and> find_cls resolver_empty_name [[]] = Inr RS4
   \<and> cls_X \<noteq> RS4"
  by (simp add: setitem_def NameClassMap_init_def resolver_empty_name_def getitem_def
      find_cls_def issubclass_examples cls_X_def RS4_def)

section \<open>Promotion rules\<close>





text \<open>
  Claim C4. In \<open>sexpvector_to_ro\<close> the class-based overrides come before the shape
  rule. An R vector whose class chain contains \<open>data.frame\<close> becomes a \<open>DataFrame\<close>
  whatever its storage tag, its \<open>dim\<close> and its other classes: the test is the first
  branch. An integer-tagged vector whose class chain contains \<open>factor\<close> becomes a
  \<open>FactorVector\<close> (unless the \<open>data.frame\<close> test, which comes first, made it a
  \<open>DataFrame\<close>), and so never an integer matrix or array, whatever its \<open>dim\<close>.
\<close>

theorem class_overrides_before_shape:
  assumes vec: "isinstance obj T_SexpVector"
  shows "(''data.frame'' \<in> set (rclass obj) \<longrightarrow>
            sexpvector_to_ro posixct_isrinstance obj = Inr (Construct DataFrame obj))
       \<and> (typeof obj = INTSXP \<and> ''factor'' \<in> set (rclass obj)
            \<and> ''data.frame'' \<notin> set (rclass obj) \<longrightarrow>
            sexpvector_to_ro posixct_isrinstance obj = Inr (Construct FactorVector obj))
       \<and> (typeof obj = INTSXP \<and> ''factor'' \<in> set (rclass obj) \<longrightarrow>
            (sexpvector_to_ro posixct_isrinstance obj = Inr (Construct FactorVector obj)
             \<or> sexpvector_to_ro posixct_isrinstance obj = Inr (Construct DataFrame obj))
            \<and> sexpvector_to_ro posixct_isrinstance obj \<noteq> Inr (Construct IntMatrix obj)
            \<and> sexpvector_to_ro posixct_isrinstance obj \<noteq> Inr (Construct IntArray obj))"
proof (intro conjI impI)
  assume "''data.frame'' \<in> set (rclass obj)"
  with vec show "sexpvector_to_ro posixct_isrinstance obj = Inr (Construct DataFrame obj)"
    by (simp add: sexpvector_to_ro_def Let_def)
next
  assume "typeof obj = INTSXP \<and> ''factor'' \<in> set (rclass obj)
            \<and> ''data.frame'' \<notin> set (rclass obj)"
  with vec show "sexpvector_to_ro posixct_isrinstance obj = Inr (Construct FactorVector obj)"
    by (simp add: sexpvector_to_ro_def Let_def)
next
  assume fac: "typeof obj = INTSXP \<and> ''factor'' \<in> set (rclass obj)"
  show "sexpvector_to_ro posixct_isrinstance obj = Inr (Construct FactorVector obj)
          \<or> sexpvector_to_ro posixct_isrinstance obj = Inr (Construct DataFrame obj)"
    using vec fac by (cases "''data.frame'' \<in> set (rclass obj)")
      (simp_all add: sexpvector_to_ro_def Let_def)
  show "sexpvector_to_ro posixct_isrinstance obj \<noteq> Inr (Construct IntMatrix obj)"
    using vec fac by (cases "''data.frame'' \<in> set (rclass obj)")
      (simp_all add: sexpvector_to_ro_def Let_def)
  show "sexpvector_to_ro posixct_isrinstance obj \<noteq> Inr (Construct IntArray obj)"
    using vec fac by (cases "''data.frame'' \<in> set (rclass obj)")
      (simp_all add: sexpvector_to_ro_def Let_def)
qed

text \<open>The fixtures of the specification: the factor with \<open>dim = [2, 2]\<close> and the
  integer-tagged data frame.\<close>

theorem class_overrides_before_shape_witness:
  "slots factor_2x2 ''dim'' = Some [2, 2]
   \<and> sexpvector_to_ro (\<lambda>obj. False) factor_2x2 = Inr (Construct FactorVector factor_2x2)
   \<and> sexpvector_to_ro (\<lambda>obj. False) factor_2x2 \<noteq> Inr (Construct IntMatrix factor_2x2)
   \<and> sexpvector_to_ro (\<lambda>obj. False) int_data_frame = Inr (Construct DataFrame int_data_frame)"
proof -
  have v1: "isinstance factor_2x2 T_SexpVector"
    by (simp add: factor_2x2_def isinstance_def)
  have v2: "isinstance int_data_frame T_SexpVector"
    by (simp add: int_data_frame_def isinstance_def)
  have "sexpvector_to_ro (\<lambda>obj. False) factor_2x2 = Inr (Construct FactorVector factor_2x2)"
    "sexpvector_to_ro (\<lambda>obj. False) factor_2x2 \<noteq> Inr (Construct IntMatrix factor_2x2)"
    using class_overrides_before_shape[OF v1, of "\<lambda>obj. False"]
    by (simp_all add: factor_2x2_def)
  moreover have "sexpvector_to_ro (\<lambda>obj. False) int_data_frame = Inr (Construct DataFrame int_data_frame)"
    using class_overrides_before_shape[OF v2, of "\<lambda>obj. False"]
    by (simp add: int_data_frame_def)
  moreover have "slots factor_2x2 ''dim'' = Some [2, 2]"
    by (simp add: factor_2x2_def)
  ultimately show ?thesis by blast
qed

section \<open>The universal fallback of inbound conversion\<close>

lemma default_converter_rpy2py_table:
  "default_converter_rpy2py posixct_isrinstance extends rs4_map =
     [T_RObject \<mapsto> rpy2py_robject,
      T_SexpVector \<mapsto> sexpvector_to_ro posixct_isrinstance,
      T_SexpClosure \<mapsto> rpy2py_sexpclosure,
      T_SexpEnvironment \<mapsto> rpy2py_sexpenvironment,
      T_SexpS4 \<mapsto> rpy2py_sexps4 extends rs4_map,
      T_SexpExtPtr \<mapsto> rpy2py_sexpextptr,
      T_object \<mapsto> rpy2py_object,
      T_NULLType \<mapsto> rpy2py_null,
      T_object \<mapsto> anonymous_rpy2py]"
  by (simp add: default_converter_rpy2py_def rpy2py_registrations_def registerInbound_def)

lemma fallback_handler_in_effect:
  "default_converter_rpy2py posixct_isrinstance extends rs4_map T_object = Some anonymous_rpy2py"
  by (simp add: default_converter_rpy2py_table)

lemma resolve_handler_fallback:
  assumes "T_object \<in> set ancestors"
    and "\<forall>t \<in> set ancestors. t \<noteq> T_object \<longrightarrow> table t = None"
    and "table T_object = Some h"
  shows "resolve_handler table ancestors = Some h"
  using assms by (induction ancestors) (auto split: option.splits)

lemma unmatched_value_is_returned_unwrapped:
  assumes "T_object \<in> set (sexp_mro v)"
    and "set (sexp_mro v) \<inter> {T_RObject, T_SexpVector, T_SexpClosure, T_SexpEnvironment,
           T_SexpS4, T_SexpExtPtr, T_NULLType} = {}"
  shows "convertInbound (default_converter_rpy2py posixct_isrinstance extends rs4_map) v = Inr (Obj v)"
proof -
  let ?table = "default_converter_rpy2py posixct_isrinstance extends rs4_map"
  have "\<forall>t \<in> set (sexp_mro v). t \<noteq> T_object \<longrightarrow> ?table t = None"
    using assms(2) by (auto simp: default_converter_rpy2py_table)
  with assms(1) have "resolve_handler ?table (sexp_mro v) = Some anonymous_rpy2py"
    by (intro resolve_handler_fallback fallback_handler_in_effect)
  then show ?thesis by (simp add: convertInbound_def anonymous_rpy2py_def)
qed

text \<open>
  Claim C6 fails on the code. The module registers two handlers for \<open>object\<close> on the
  inbound table: first \<open>_rpy2py_object\<close>, which wraps the value in an \<open>RObject\<close>, and
  later the function \<open>_\<close>, which returns the value as it is. The second registration
  replaces the first, so an R symbol, which matches no specific handler, comes back
  unwrapped, where the handler the claim describes would have produced
  \<open>RObject(symbol)\<close>.
\<close>

theorem fallback_returns_value_unwrapped:
  "convertInbound (default_converter_rpy2py posixct_isrinstance extends rs4_map) symbol_sexp
     = Inr (Obj symbol_sexp)
   \<and> rpy2py_object symbol_sexp = Inr (Construct RObject symbol_sexp)
   \<and> convertInbound (default_converter_rpy2py posixct_isrinstance extends rs4_map) symbol_sexp
     \<noteq> rpy2py_object symbol_sexp"
proof -
  have "convertInbound (default_converter_rpy2py posixct_isrinstance extends rs4_map) symbol_sexp
     = Inr (Obj symbol_sexp)"
    by (rule unmatched_value_is_returned_unwrapped) (simp_all add: symbol_sexp_def)
  then show ?thesis by (simp add: rpy2py_object_def)
qed

section \<open>Inference of the vector class\<close>

lemma TYPEORDER_cases:
  "TYPEORDER ty = Some (p, c) \<longleftrightarrow>
     (ty = T_bool \<and> p = 0 \<and> c = BoolVector)
   \<or> (ty = T_int \<and> p = 1 \<and> c = IntVector)
   \<or> (ty = T_float \<and> p = 2 \<and> c = FloatVector)
   \<or> (ty = T_complex \<and> p = 3 \<and> c = ComplexVector)
   \<or> (ty = T_str \<and> p = 4 \<and> c = StrVector)"
  by (auto simp: TYPEORDER_def split: if_splits)

lemma TYPEORDER_dom:
  "TYPEORDER ty \<noteq> None \<longleftrightarrow> ty \<in> {T_bool, T_int, T_float, T_complex, T_str}"
  by (auto simp: TYPEORDER_def)

lemma TYPEORDER_nonneg: "TYPEORDER ty = Some (p, c) \<Longrightarrow> 0 \<le> p"
  by (auto simp: TYPEORDER_cases)

lemma stv_loop_unregistered:
  assumes "\<exists>elt \<in> set lst. TYPEORDER (type_of elt) = None"
  shows "\<exists>j < length lst. stv_loop n lst st = Inl (ValueError_elt (n + j))
           \<and> TYPEORDER (type_of (lst ! j)) = None
           \<and> (\<forall>j' < j. TYPEORDER (type_of (lst ! j')) \<noteq> None)"
  using assms
proof (induction lst arbitrary: n st)
  case Nil
  then show ?case by simp
next
  case (Cons elt rest)
  obtain i ord t where st: "st = (i, ord, t)" by (cases st)
  show ?case
  proof (cases "TYPEORDER (type_of elt)")
    case None
    then have "stv_loop n (elt # rest) st = Inl (ValueError_elt (n + 0))"
      by (simp add: st)
    with None show ?thesis by (intro exI[of _ 0]) simp
  next
    case (Some pc)
    obtain p c where pc: "pc = (p, c)" by (cases pc)
    from Cons.prems Some have ex: "\<exists>e \<in> set rest. TYPEORDER (type_of e) = None"
      by auto
    define st' where "st' = (if p > ord then (Some n, p, Some c) else (Some n, ord, t))"
    have step: "stv_loop n (elt # rest) st = stv_loop (Suc n) rest st'"
      by (simp add: st Some pc st'_def)
    from Cons.IH[OF ex, of "Suc n" st'] obtain j where j: "j < length rest"
      "stv_loop (Suc n) rest st' = Inl (ValueError_elt (Suc n + j))"
      "TYPEORDER (type_of (rest ! j)) = None"
      "\<forall>j' < j. TYPEORDER (type_of (rest ! j')) \<noteq> None"
      by blast
    have "\<forall>j' < Suc j. TYPEORDER (type_of ((elt # rest) ! j')) \<noteq> None"
    proof (intro allI impI)
      fix j' assume "j' < Suc j"
      then show "TYPEORDER (type_of ((elt # rest) ! j')) \<noteq> None"
        using Some j(4) by (cases j') simp_all
    qed
    with j step show ?thesis
      by (intro exI[of _ "Suc j"]) simp
  qed
qed

text \<open>The loop on a sequence of registered types: it ends normally, \<open>i\<close> is set
  as soon as there is an element, the priority never decreases and bounds the
  priority of every element, and the priority and the class are either the ones the
  loop started with or those of an element of the sequence.\<close>

lemma stv_loop_registered:
  assumes "\<forall>elt \<in> set lst. TYPEORDER (type_of elt) \<noteq> None"
  shows "\<exists>i' ord' t'. stv_loop n lst (i, ord, t) = Inr (i', ord', t')
           \<and> (i' = None \<longleftrightarrow> i = None \<and> lst = [])
           \<and> ord \<le> ord'
           \<and> (\<forall>elt \<in> set lst. \<forall>p c. TYPEORDER (type_of elt) = Some (p, c) \<longrightarrow> p \<le> ord')
           \<and> ((ord', t') = (ord, t)
                \<or> (\<exists>elt \<in> set lst. \<exists>c. TYPEORDER (type_of elt) = Some (ord', c) \<and> t' = Some c))"
  using assms
proof (induction lst arbitrary: n i ord t)
  case Nil
  then show ?case by simp
next
  case (Cons elt rest)
  from Cons.prems obtain p c where pc: "TYPEORDER (type_of elt) = Some (p, c)"
    by (cases "TYPEORDER (type_of elt)") auto
  from Cons.prems have reg: "\<forall>e \<in> set rest. TYPEORDER (type_of e) \<noteq> None" by simp
  show ?case
  proof (cases "p > ord")
    case True
    then have step: "stv_loop n (elt # rest) (i, ord, t) = stv_loop (Suc n) rest (Some n, p, Some c)"
      by (simp add: pc)
    from Cons.IH[OF reg, of "Suc n" "Some n" p "Some c"] obtain i' ord' t' where
      r: "stv_loop (Suc n) rest (Some n, p, Some c) = Inr (i', ord', t')"
      and i0: "i' = None \<longleftrightarrow> Some n = None \<and> rest = []" and mono: "p \<le> ord'"
      and bound: "\<forall>e \<in> set rest. \<forall>q d. TYPEORDER (type_of e) = Some (q, d) \<longrightarrow> q \<le> ord'"
      and src: "(ord', t') = (p, Some c)
                \<or> (\<exists>e \<in> set rest. \<exists>d. TYPEORDER (type_of e) = Some (ord', d) \<and> t' = Some d)"
      by blast
    from i0 have i': "i' \<noteq> None" by simp
    have b2: "\<forall>e \<in> set (elt # rest). \<forall>q d. TYPEORDER (type_of e) = Some (q, d) \<longrightarrow> q \<le> ord'"
      using bound mono pc by auto
    have s2: "\<exists>e \<in> set (elt # rest). \<exists>d. TYPEORDER (type_of e) = Some (ord', d) \<and> t' = Some d"
      using src pc by auto
    from step r i' mono True b2 s2 show ?thesis by auto
  next
    case False
    then have step: "stv_loop n (elt # rest) (i, ord, t) = stv_loop (Suc n) rest (Some n, ord, t)"
      by (simp add: pc)
    from Cons.IH[OF reg, of "Suc n" "Some n" ord t] obtain i' ord' t' where
      r: "stv_loop (Suc n) rest (Some n, ord, t) = Inr (i', ord', t')"
      and i0: "i' = None \<longleftrightarrow> Some n = None \<and> rest = []" and mono: "ord \<le> ord'"
      and bound: "\<forall>e \<in> set rest. \<forall>q d. TYPEORDER (type_of e) = Some (q, d) \<longrightarrow> q \<le> ord'"
      and src: "(ord', t') = (ord, t)
                \<or> (\<exists>e \<in> set rest. \<exists>d. TYPEORDER (type_of e) = Some (ord', d) \<and> t' = Some d)"
      by blast
    from i0 have i': "i' \<noteq> None" by simp
    have b2: "\<forall>e \<in> set (elt # rest). \<forall>q d. TYPEORDER (type_of e) = Some (q, d) \<longrightarrow> q \<le> ord'"
      using bound mono pc False by auto
    have s2: "(ord', t') = (ord, t)
                \<or> (\<exists>e \<in> set (elt # rest). \<exists>d. TYPEORDER (type_of e) = Some (ord', d) \<and> t' = Some d)"
      using src by auto
    from step r i' mono b2 s2 show ?thesis by auto
  qed
qed

lemma sequence_to_vector_empty: "sequence_to_vector [] = Inl ValueError_empty"
  by (simp add: sequence_to_vector_def)

lemma sequence_to_vector_unregistered:
  assumes "\<exists>elt \<in> set lst. TYPEORDER (type_of elt) = None"
  shows "\<exists>j < length lst. sequence_to_vector lst = Inl (ValueError_elt j)
           \<and> TYPEORDER (type_of (lst ! j)) = None
           \<and> (\<forall>j' < j. TYPEORDER (type_of (lst ! j')) \<noteq> None)"
proof -
  from stv_loop_unregistered[OF assms, of 0 "(None, - 1, None)"] obtain j where
    j: "j < length lst" "stv_loop 0 lst (None, - 1, None) = Inl (ValueError_elt (0 + j))"
      "TYPEORDER (type_of (lst ! j)) = None"
      "\<forall>j' < j. TYPEORDER (type_of (lst ! j')) \<noteq> None"
    by blast
  from j(2) have "sequence_to_vector lst = Inl (ValueError_elt j)"
    by (simp add: sequence_to_vector_def)
  with j show ?thesis by blast
qed

lemma sequence_to_vector_registered:
  assumes ne: "lst \<noteq> []"
    and reg: "\<forall>elt \<in> set lst. TYPEORDER (type_of elt) \<noteq> None"
  shows "\<exists>elt \<in> set lst. \<exists>p c. TYPEORDER (type_of elt) = Some (p, c)
           \<and> sequence_to_vector lst = Inr (c, lst)
           \<and> (\<forall>e \<in> set lst. \<forall>q d. TYPEORDER (type_of e) = Some (q, d) \<longrightarrow> q \<le> p)"
proof -
  from stv_loop_registered[OF reg, of 0 None "- 1" None] obtain i' ord' t' where
    r: "stv_loop 0 lst (None, - 1, None) = Inr (i', ord', t')"
    and i0: "i' = None \<longleftrightarrow> None = (None :: nat option) \<and> lst = []"
    and bound: "\<forall>e \<in> set lst. \<forall>q d. TYPEORDER (type_of e) = Some (q, d) \<longrightarrow> q \<le> ord'"
    and src: "(ord', t') = (- 1, None)
                \<or> (\<exists>e \<in> set lst. \<exists>d. TYPEORDER (type_of e) = Some (ord', d) \<and> t' = Some d)"
    by blast
  from i0 ne have i': "i' \<noteq> None" by simp
  from ne obtain x where x: "x \<in> set lst" by (cases lst) auto
  with reg obtain q d where qd: "TYPEORDER (type_of x) = Some (q, d)"
    by (cases "TYPEORDER (type_of x)") auto
  with bound x have "q \<le> ord'" by blast
  moreover from qd have "0 \<le> q" by (rule TYPEORDER_nonneg)
  ultimately have "ord' \<noteq> - 1" by simp
  with src obtain e c where e: "e \<in> set lst" "TYPEORDER (type_of e) = Some (ord', c)" "t' = Some c"
    by auto
  from r i' e(3) have "sequence_to_vector lst = Inr (c, lst)"
    by (simp add: sequence_to_vector_def)
  with e bound show ?thesis by blast
qed

text \<open>
  Claim C7. \<open>sequence_to_vector\<close> raises if and only if the sequence is empty or
  has an element whose type is not a key of \<open>TYPEORDER\<close>. On the empty sequence, and
  only there, it raises the \<open>ValueError\<close> for an empty sequence; it raises the
  \<open>ValueError\<close> naming an element exactly when some element has an unregistered
  type, and the element named is the first of them. It raises nothing else. (The
  constructor of the vector class, which is outside the module, is taken to
  succeed.)
\<close>

theorem sequence_to_vector_raises_iff:
  "((\<exists>e. sequence_to_vector lst = Inl e) \<longleftrightarrow>
       lst = [] \<or> (\<exists>elt \<in> set lst. TYPEORDER (type_of elt) = None))
   \<and> (sequence_to_vector lst = Inl ValueError_empty \<longleftrightarrow> lst = [])
   \<and> ((\<exists>j. sequence_to_vector lst = Inl (ValueError_elt j)) \<longleftrightarrow>
       (\<exists>elt \<in> set lst. TYPEORDER (type_of elt) = None))
   \<and> (\<forall>j. sequence_to_vector lst = Inl (ValueError_elt j) \<longrightarrow>
         j < length lst \<and> TYPEORDER (type_of (lst ! j)) = None
         \<and> (\<forall>j' < j. TYPEORDER (type_of (lst ! j')) \<noteq> None))
   \<and> (\<forall>e. sequence_to_vector lst = Inl e \<longrightarrow>
         e = ValueError_empty \<or> (\<exists>j. e = ValueError_elt j))"
proof (cases "lst = []")
  case True
  then show ?thesis by (simp add: sequence_to_vector_empty)
next
  case ne: False
  show ?thesis
  proof (cases "\<exists>elt \<in> set lst. TYPEORDER (type_of elt) = None")
    case unreg: True
    from sequence_to_vector_unregistered[OF unreg] obtain j where
      j: "j < length lst" "sequence_to_vector lst = Inl (ValueError_elt j)"
        "TYPEORDER (type_of (lst ! j)) = None"
        "\<forall>j' < j. TYPEORDER (type_of (lst ! j')) \<noteq> None"
      by blast
    with unreg ne show ?thesis by auto
  next
    case False
    then have reg: "\<forall>elt \<in> set lst. TYPEORDER (type_of elt) \<noteq> None" by simp
    from sequence_to_vector_registered[OF ne reg] obtain c where
      "sequence_to_vector lst = Inr (c, lst)" by blast
    with ne reg show ?thesis by auto
  qed
qed

theorem sequence_to_vector_raises_iff_witness:
  "sequence_to_vector [] = Inl ValueError_empty
   \<and> sequence_to_vector sequence_with_none = Inl (ValueError_elt 1)
   \<and> (\<exists>r. sequence_to_vector mixed_sequence = Inr r)"
proof -
  have "sequence_to_vector [] = Inl ValueError_empty"
    using sequence_to_vector_raises_iff[of "[]"] by blast
  moreover have "sequence_to_vector sequence_with_none = Inl (ValueError_elt 1)"
  proof -
    have "\<exists>elt \<in> set sequence_with_none. TYPEORDER (type_of elt) = None"
      by (simp add: sequence_with_none_def TYPEORDER_def)
    with sequence_to_vector_raises_iff[of sequence_with_none]
    obtain j where j: "sequence_to_vector sequence_with_none = Inl (ValueError_elt j)"
      "j < length sequence_with_none"
      "TYPEORDER (type_of (sequence_with_none ! j)) = None"
      by blast
    from j(2) have "j = 0 \<or> j = 1" by (auto simp: sequence_with_none_def)
    with j(3) have "j = 1" by (auto simp: sequence_with_none_def TYPEORDER_def)
    with j(1) show ?thesis by simp
  qed
  moreover have "\<exists>r. sequence_to_vector mixed_sequence = Inr r"
  proof -
    have "\<not> (mixed_sequence = [] \<or> (\<exists>elt \<in> set mixed_sequence. TYPEORDER (type_of elt) = None))"
      by (simp add: mixed_sequence_def TYPEORDER_def)
    with sequence_to_vector_raises_iff[of mixed_sequence]
    have "\<not> (\<exists>e. sequence_to_vector mixed_sequence = Inl e)" by blast
    then show ?thesis by (cases "sequence_to_vector mixed_sequence") auto
  qed
  ultimately show ?thesis by blast
qed

text \<open>
  Claim C8. For a non-empty sequence whose element types are all among \<open>bool\<close>,
  \<open>int\<close>, \<open>float\<close>, \<open>complex\<close> and \<open>str\<close>, \<open>sequence_to_vector\<close> returns the vector
  class that \<open>TYPEORDER\<close> gives for an element type present in the sequence whose
  priority is at least that of every element, applied to the sequence. The
  priorities are 0 to 4 in the order \<open>bool\<close>, \<open>int\<close>, \<open>float\<close>, \<open>complex\<close>, \<open>str\<close>,
  with the classes \<open>BoolVector\<close>, \<open>IntVector\<close>, \<open>FloatVector\<close>, \<open>ComplexVector\<close> and
  \<open>StrVector\<close>.
\<close>

theorem highest_priority_type_decides:
  assumes ne: "lst \<noteq> []"
    and types: "\<forall>elt \<in> set lst. type_of elt \<in> {T_bool, T_int, T_float, T_complex, T_str}"
  shows "(\<exists>elt \<in> set lst. \<exists>p c. TYPEORDER (type_of elt) = Some (p, c)
            \<and> sequence_to_vector lst = Inr (c, lst)
            \<and> (\<forall>e \<in> set lst. \<forall>q d. TYPEORDER (type_of e) = Some (q, d) \<longrightarrow> q \<le> p))
       \<and> map TYPEORDER [T_bool, T_int, T_float, T_complex, T_str]
           = [Some (0, BoolVector), Some (1, IntVector), Some (2, FloatVector),
              Some (3, ComplexVector), Some (4, StrVector)]"
proof
  from types have "\<forall>elt \<in> set lst. TYPEORDER (type_of elt) \<noteq> None"
    using TYPEORDER_dom by blast
  with ne show "\<exists>elt \<in> set lst. \<exists>p c. TYPEORDER (type_of elt) = Some (p, c)
            \<and> sequence_to_vector lst = Inr (c, lst)
            \<and> (\<forall>e \<in> set lst. \<forall>q d. TYPEORDER (type_of e) = Some (q, d) \<longrightarrow> q \<le> p)"
    by (rule sequence_to_vector_registered)
  show "map TYPEORDER [T_bool, T_int, T_float, T_complex, T_str]
           = [Some (0, BoolVector), Some (1, IntVector), Some (2, FloatVector),
              Some (3, ComplexVector), Some (4, StrVector)]"
    by (simp add: TYPEORDER_def)
qed

text \<open>The sequence \<open>[True, 1, "s"]\<close> of the specification gives \<open>StrVector\<close>.\<close>

theorem highest_priority_type_decides_witness:
  "sequence_to_vector mixed_sequence = Inr (StrVector, mixed_sequence)"
proof -
  have ne: "mixed_sequence \<noteq> []" by (simp add: mixed_sequence_def)
  have types: "\<forall>elt \<in> set mixed_sequence. type_of elt \<in> {T_bool, T_int, T_float, T_complex, T_str}"
    by (simp add: mixed_sequence_def)
  from highest_priority_type_decides[OF ne types] obtain elt p c where
    e: "elt \<in> set mixed_sequence" "TYPEORDER (type_of elt) = Some (p, c)"
      "sequence_to_vector mixed_sequence = Inr (c, mixed_sequence)"
      "\<forall>e \<in> set mixed_sequence. \<forall>q d. TYPEORDER (type_of e) = Some (q, d) \<longrightarrow> q \<le> p"
    by blast
  have "PyVal T_str ''s'' \<in> set mixed_sequence" by (simp add: mixed_sequence_def)
  moreover have "TYPEORDER (type_of (PyVal T_str ''s'')) = Some (4, StrVector)"
    by (simp add: TYPEORDER_def)
  ultimately have "4 \<le> p" using e(4) by blast
  with e(2) have "c = StrVector" by (auto simp: TYPEORDER_cases)
  with e(3) show ?thesis by simp
qed

end
